theory Spec2Isabelle
  imports Main "HOL-Library.Word"
begin

section \<open>Host values: strings, trimming, number rendering\<close>

text \<open>
  A JavaScript string is a sequence of 16-bit code units. \<open>js\<close> embeds an ASCII literal.
\<close>

type_synonym code_unit = "16 word"
type_synonym jsstring = "code_unit list"

definition js :: "string \<Rightarrow> jsstring" where
  "js s = map (\<lambda>c. of_nat (of_char c)) s"

text \<open>
  \<open>String.prototype.trim\<close> strips WhiteSpace and LineTerminator code units from both
  ends: TAB, LF, VT, FF, CR, SP, NBSP, the Unicode space separators, LS, PS and the BOM.
\<close>

definition is_white_space :: "code_unit \<Rightarrow> bool" where
  "is_white_space c \<longleftrightarrow>
     c = 0x0009 \<or> c = 0x000A \<or> c = 0x000B \<or> c = 0x000C \<or> c = 0x000D \<or> c = 0x0020 \<or>
     c = 0x00A0 \<or> c = 0x1680 \<or> (0x2000 \<le> c \<and> c \<le> 0x200A) \<or> c = 0x2028 \<or>
     c = 0x2029 \<or> c = 0x202F \<or> c = 0x205F \<or> c = 0x3000 \<or> c = 0xFEFF"

definition trim :: "jsstring \<Rightarrow> jsstring" where
  "trim s = rev (dropWhile is_white_space (rev (dropWhile is_white_space s)))"

text \<open>A string is falsy exactly when it is empty: \<open>!s\<close> and \<open>s ? a : b\<close> test this.\<close>

definition truthy :: "jsstring \<Rightarrow> bool" where
  "truthy s \<longleftrightarrow> s \<noteq> []"

text \<open>
  \<open>Date.now()\<close> is a count of milliseconds, passed in by the caller of the model;
  \<open>toString()\<close> renders it in decimal.
\<close>

definition digit :: "nat \<Rightarrow> code_unit" where
  "digit d = of_nat (48 + d)"

fun Number_toString :: "nat \<Rightarrow> jsstring" where
  "Number_toString n =
     (if n < 10 then [digit n] else Number_toString (n div 10) @ [digit (n mod 10)])"

declare Number_toString.simps [simp del]

section \<open>The todo store (\<open>useTodos\<close>)\<close>

text \<open>\<open>interface Todo { id: string; text: string; completed: boolean }\<close>\<close>

record todo =
  todo_id :: jsstring
  todo_text :: jsstring
  todo_completed :: bool

text \<open>
  \<open>localStorage\<close> maps keys to texts. \<open>JSON.parse\<close> and \<open>JSON.stringify\<close> belong to
  the host; the hooks receive them as parameters, \<open>JSON.parse\<close> returning either the
  exception it throws or the value.
\<close>

type_synonym storage = "jsstring \<rightharpoonup> jsstring"

datatype exn = SyntaxError

record hook =
  todos :: "todo list"
  localStorage :: storage

text \<open>
  The lazy initialiser of \<open>useState\<close>:
  \<^verbatim>\<open>const savedTodos = localStorage.getItem('todos');
  return savedTodos ? JSON.parse(savedTodos) : [];\<close>
  There is no \<open>try\<close> around it: what \<open>JSON.parse\<close> throws leaves the hook.
\<close>

definition useTodos_init :: "(jsstring \<Rightarrow> exn + todo list) \<Rightarrow> storage \<Rightarrow> exn + todo list" where
  "useTodos_init parse st =
     (case st (js ''todos'') of
        None \<Rightarrow> Inr []
      | Some savedTodos \<Rightarrow> if truthy savedTodos then parse savedTodos else Inr [])"

text \<open>
  The effect \<open>localStorage.setItem('todos', JSON.stringify(todos))\<close> with dependency
  \<open>[todos]\<close>: it runs after the first render and after every render in which
  \<open>todos\<close> is a new array.
\<close>

definition saveEffect :: "(todo list \<Rightarrow> jsstring) \<Rightarrow> hook \<Rightarrow> hook" where
  "saveEffect stringify h =
     h\<lparr>localStorage := (localStorage h)(js ''todos'' \<mapsto> stringify (todos h))\<rparr>"

text \<open>
  \<open>setTodos\<close> with a freshly built array: the state changes, the component renders
  again and the effect runs. Every caller below passes a new array (a spread, a
  \<open>map\<close> or a \<open>filter\<close>), so the effect always follows. When two calls are made
  before the next render, React keeps the array of the later call, renders once and
  runs the effect once: the state and the stored text are those the two steps of the
  model end in.
\<close>

definition setTodos :: "(todo list \<Rightarrow> jsstring) \<Rightarrow> todo list \<Rightarrow> hook \<Rightarrow> hook" where
  "setTodos stringify ts h = saveEffect stringify (h\<lparr>todos := ts\<rparr>)"

text \<open>Mounting the hook on a storage: the initialiser, then the effect of the first render.\<close>

definition useTodos :: "(jsstring \<Rightarrow> exn + todo list) \<Rightarrow> (todo list \<Rightarrow> jsstring) \<Rightarrow> storage
    \<Rightarrow> exn + hook" where
  "useTodos parse stringify st =
     (case useTodos_init parse st of
        Inl e \<Rightarrow> Inl e
      | Inr ts \<Rightarrow> Inr (saveEffect stringify \<lparr>todos = ts, localStorage = st\<rparr>))"

text \<open>
  The five callbacks. Each is a closure of one render: the \<open>todos\<close> in its body is the
  array of that render, here the argument \<open>captured\<close>, whatever the state has become
  when it is called; what it passes to \<open>setTodos\<close> replaces the state. A call through
  the callbacks of the latest render, as a click on the rendered page makes it, has
  \<open>captured = todos h\<close>. The argument \<open>now\<close> of \<open>addTodo\<close> is the value \<open>Date.now()\<close>
  returns.
\<close>

definition addTodo ::
    "(todo list \<Rightarrow> jsstring) \<Rightarrow> todo list \<Rightarrow> nat \<Rightarrow> jsstring \<Rightarrow> hook \<Rightarrow> hook" where
  "addTodo stringify captured now text h =
     (if \<not> truthy (trim text) then h
      else
        let newTodo = \<lparr>todo_id = Number_toString now, todo_text = trim text,
                       todo_completed = False\<rparr>
        in setTodos stringify (captured @ [newTodo]) h)"

definition toggleTodo ::
    "(todo list \<Rightarrow> jsstring) \<Rightarrow> todo list \<Rightarrow> jsstring \<Rightarrow> hook \<Rightarrow> hook" where
  "toggleTodo stringify captured i h =
     setTodos stringify
       (map (\<lambda>t. if todo_id t = i then t\<lparr>todo_completed := \<not> todo_completed t\<rparr> else t)
          captured) h"

definition editTodo ::
    "(todo list \<Rightarrow> jsstring) \<Rightarrow> todo list \<Rightarrow> jsstring \<Rightarrow> jsstring \<Rightarrow> hook \<Rightarrow> hook" where
  "editTodo stringify captured i newText h =
     (if \<not> truthy (trim newText) then h
      else
        setTodos stringify
          (map (\<lambda>t. if todo_id t = i then t\<lparr>todo_text := trim newText\<rparr> else t) captured) h)"

definition deleteTodo ::
    "(todo list \<Rightarrow> jsstring) \<Rightarrow> todo list \<Rightarrow> jsstring \<Rightarrow> hook \<Rightarrow> hook" where
  "deleteTodo stringify captured i h =
     setTodos stringify (filter (\<lambda>t. todo_id t \<noteq> i) captured) h"

definition clearCompleted :: "(todo list \<Rightarrow> jsstring) \<Rightarrow> todo list \<Rightarrow> hook \<Rightarrow> hook" where
  "clearCompleted stringify captured h =
     setTodos stringify (filter (\<lambda>t. \<not> todo_completed t) captured) h"

text \<open>The derived \<open>stats\<close> object, recomputed on every render.\<close>

record stats_t =
  stats_total :: nat
  stats_completed :: nat
  stats_active :: nat

definition stats :: "hook \<Rightarrow> stats_t" where
  "stats h =
     \<lparr>stats_total = length (todos h),
      stats_completed = length (filter (\<lambda>t. todo_completed t) (todos h)),
      stats_active = length (filter (\<lambda>t. \<not> todo_completed t) (todos h))\<rparr>"

text \<open>
  A session is a sequence of calls on the hook, each made through the callbacks of the
  latest render: the component renders again after every state change, and the page's
  handlers are those of the render on screen.
\<close>

datatype call =
  AddTodo nat jsstring
| ToggleTodo jsstring
| EditTodo jsstring jsstring
| DeleteTodo jsstring
| ClearCompleted

fun apply_call :: "(todo list \<Rightarrow> jsstring) \<Rightarrow> hook \<Rightarrow> call \<Rightarrow> hook" where
  "apply_call stringify h (AddTodo now text) = addTodo stringify (todos h) now text h"
| "apply_call stringify h (ToggleTodo i) = toggleTodo stringify (todos h) i h"
| "apply_call stringify h (EditTodo i newText) = editTodo stringify (todos h) i newText h"
| "apply_call stringify h (DeleteTodo i) = deleteTodo stringify (todos h) i h"
| "apply_call stringify h ClearCompleted = clearCompleted stringify (todos h) h"

definition run_calls :: "(todo list \<Rightarrow> jsstring) \<Rightarrow> hook \<Rightarrow> call list \<Rightarrow> hook" where
  "run_calls stringify h cs = foldl (apply_call stringify) h cs"

section \<open>The generic persisted value (\<open>useLocalStorage\<close>)\<close>

text \<open>
  The lazy initialiser of \<open>useLocalStorage<T>(key, initialValue)\<close>:
  \<^verbatim>\<open>if (typeof window === "undefined") return initialValue;
  try {
    const item = window.localStorage.getItem(key);
    return item ? JSON.parse(item) : initialValue;
  } catch (error) { console.error(error); return initialValue; }\<close>
  \<open>try_catch\<close> is the \<open>try\<close> statement: the handler receives what the body threw.
\<close>

definition try_catch :: "'e + 'a \<Rightarrow> ('e \<Rightarrow> 'e + 'a) \<Rightarrow> 'e + 'a" where
  "try_catch body handler = (case body of Inl e \<Rightarrow> handler e | Inr v \<Rightarrow> Inr v)"

definition useLocalStorage_init ::
    "bool \<Rightarrow> (jsstring \<Rightarrow> exn + 'a) \<Rightarrow> storage \<Rightarrow> jsstring \<Rightarrow> 'a \<Rightarrow> exn + 'a" where
  "useLocalStorage_init window_defined parse st key initialValue =
     (if \<not> window_defined then Inr initialValue
      else
        try_catch
          (case st key of
             None \<Rightarrow> Inr initialValue
           | Some item \<Rightarrow> if truthy item then parse item else Inr initialValue)
          (\<lambda>error. Inr initialValue))"

section \<open>The host's JSON text of a todo array\<close>

text \<open>
  \<open>JSON.stringify\<close> on a \<open>Todo[]\<close>: no white space, the keys in the order \<open>id\<close>,
  \<open>text\<close>, \<open>completed\<close> in which \<open>addTodo\<close> creates them, strings quoted as
  QuoteJSONString does: two-character escapes for backspace, tab, line feed, form feed,
  carriage return, the double quote and the backslash, \<open>\u\<close> with four lower-case hex
  digits for the other code units below 0x20 and for unpaired surrogates.
\<close>

definition hex_digit :: "nat \<Rightarrow> code_unit" where
  "hex_digit d = (if d < 10 then of_nat (48 + d) else of_nat (87 + d))"

definition unicode_escape :: "code_unit \<Rightarrow> jsstring" where
  "unicode_escape c =
     [0x5C, 0x75, hex_digit (unat c div 4096), hex_digit (unat c div 256 mod 16),
      hex_digit (unat c div 16 mod 16), hex_digit (unat c mod 16)]"

definition is_high_surrogate :: "code_unit \<Rightarrow> bool" where
  "is_high_surrogate c \<longleftrightarrow> 0xD800 \<le> c \<and> c \<le> 0xDBFF"

definition is_low_surrogate :: "code_unit \<Rightarrow> bool" where
  "is_low_surrogate c \<longleftrightarrow> 0xDC00 \<le> c \<and> c \<le> 0xDFFF"

definition quote_unit :: "code_unit \<Rightarrow> jsstring" where
  "quote_unit c =
     (if c = 0x08 then [0x5C, 0x62]
      else if c = 0x09 then [0x5C, 0x74]
      else if c = 0x0A then [0x5C, 0x6E]
      else if c = 0x0C then [0x5C, 0x66]
      else if c = 0x0D then [0x5C, 0x72]
      else if c = 0x22 then [0x5C, 0x22]
      else if c = 0x5C then [0x5C, 0x5C]
      else if c < 0x20 \<or> is_high_surrogate c \<or> is_low_surrogate c then unicode_escape c
      else [c])"

fun quote_units :: "jsstring \<Rightarrow> jsstring" where
  "quote_units [] = []"
| "quote_units [c] = quote_unit c"
| "quote_units (c # d # cs) =
     (if is_high_surrogate c \<and> is_low_surrogate d then c # d # quote_units cs
      else quote_unit c @ quote_units (d # cs))"

definition QuoteJSONString :: "jsstring \<Rightarrow> jsstring" where
  "QuoteJSONString s = 0x22 # quote_units s @ [0x22]"

definition stringify_todo :: "todo \<Rightarrow> jsstring" where
  "stringify_todo t =
     0x7B # QuoteJSONString (js ''id'') @ 0x3A # QuoteJSONString (todo_id t) @
     0x2C # QuoteJSONString (js ''text'') @ 0x3A # QuoteJSONString (todo_text t) @
     0x2C # QuoteJSONString (js ''completed'') @ 0x3A #
       (if todo_completed t then js ''true'' else js ''false'') @ [0x7D]"

fun commas :: "jsstring list \<Rightarrow> jsstring" where
  "commas [] = []"
| "commas [x] = x"
| "commas (x # y # ys) = x @ 0x2C # commas (y # ys)"

definition JSON_stringify :: "todo list \<Rightarrow> jsstring" where
  "JSON_stringify ts = 0x5B # commas (map stringify_todo ts) @ [0x5D]"

text \<open>
  \<open>JSON.parse\<close> on the texts \<open>JSON.stringify\<close> writes for a \<open>Todo[]\<close>, with every
  string escape of the JSON grammar, and on text that is not JSON, where the host throws
  a \<open>SyntaxError\<close>. The statements below apply it to such texts only: JSON in another
  layout (white space, another key order) or of another shape, which the host would
  parse, is not among them.
\<close>

fun strip_prefix :: "jsstring \<Rightarrow> jsstring \<Rightarrow> jsstring option" where
  "strip_prefix [] s = Some s"
| "strip_prefix (p # ps) [] = None"
| "strip_prefix (p # ps) (c # cs) = (if p = c then strip_prefix ps cs else None)"

definition hex_value :: "code_unit \<Rightarrow> nat option" where
  "hex_value c =
     (if 0x30 \<le> c \<and> c \<le> 0x39 then Some (unat c - 48)
      else if 0x61 \<le> c \<and> c \<le> 0x66 then Some (unat c - 87)
      else if 0x41 \<le> c \<and> c \<le> 0x46 then Some (unat c - 55)
      else None)"

definition hex4 :: "code_unit \<Rightarrow> code_unit \<Rightarrow> code_unit \<Rightarrow> code_unit \<Rightarrow> code_unit option" where
  "hex4 a b c d =
     (case (hex_value a, hex_value b, hex_value c, hex_value d) of
        (Some x, Some y, Some z, Some w) \<Rightarrow> Some (of_nat (4096 * x + 256 * y + 16 * z + w))
      | _ \<Rightarrow> None)"

definition unescape :: "code_unit \<Rightarrow> code_unit option" where
  "unescape e =
     (if e = 0x22 then Some 0x22
      else if e = 0x5C then Some 0x5C
      else if e = 0x2F then Some 0x2F
      else if e = 0x62 then Some 0x08
      else if e = 0x66 then Some 0x0C
      else if e = 0x6E then Some 0x0A
      else if e = 0x72 then Some 0x0D
      else if e = 0x74 then Some 0x09
      else None)"

definition consume :: "code_unit \<Rightarrow> (jsstring \<times> jsstring) option \<Rightarrow> (jsstring \<times> jsstring) option" where
  "consume u r = (case r of None \<Rightarrow> None | Some (s, rest) \<Rightarrow> Some (u # s, rest))"

text \<open>The characters of a string literal after its opening quote, and the text after it.\<close>

fun unquote :: "jsstring \<Rightarrow> (jsstring \<times> jsstring) option" where
  "unquote [] = None"
| "unquote (c # cs) =
     (if c = 0x22 then Some ([], cs)
      else if c = 0x5C then
        (case cs of
           [] \<Rightarrow> None
         | e # es \<Rightarrow>
             if e = 0x75 then
               (case es of
                  h1 # h2 # h3 # h4 # rest \<Rightarrow>
                    (case hex4 h1 h2 h3 h4 of
                       None \<Rightarrow> None
                     | Some u \<Rightarrow> consume u (unquote rest))
                | _ \<Rightarrow> None)
             else
               (case unescape e of
                  None \<Rightarrow> None
                | Some u \<Rightarrow> consume u (unquote es)))
      else if c < 0x20 then None
      else consume c (unquote cs))"

definition parse_bool :: "jsstring \<Rightarrow> (bool \<times> jsstring) option" where
  "parse_bool s =
     (case strip_prefix (js ''true'') s of
        Some r \<Rightarrow> Some (True, r)
      | None \<Rightarrow>
          (case strip_prefix (js ''false'') s of
             Some r \<Rightarrow> Some (False, r)
           | None \<Rightarrow> None))"

definition parse_todo :: "jsstring \<Rightarrow> (todo \<times> jsstring) option" where
  "parse_todo s =
     (case strip_prefix (0x7B # QuoteJSONString (js ''id'') @ [0x3A, 0x22]) s of
        None \<Rightarrow> None
      | Some s1 \<Rightarrow>
     (case unquote s1 of
        None \<Rightarrow> None
      | Some (i, s2) \<Rightarrow>
     (case strip_prefix (0x2C # QuoteJSONString (js ''text'') @ [0x3A, 0x22]) s2 of
        None \<Rightarrow> None
      | Some s3 \<Rightarrow>
     (case unquote s3 of
        None \<Rightarrow> None
      | Some (t, s4) \<Rightarrow>
     (case strip_prefix (0x2C # QuoteJSONString (js ''completed'') @ [0x3A]) s4 of
        None \<Rightarrow> None
      | Some s5 \<Rightarrow>
     (case parse_bool s5 of
        None \<Rightarrow> None
      | Some (b, s6) \<Rightarrow>
     (case strip_prefix [0x7D] s6 of
        None \<Rightarrow> None
      | Some s7 \<Rightarrow>
          Some (\<lparr>todo_id = i, todo_text = t, todo_completed = b\<rparr>, s7))))))))"

lemma strip_prefix_length: "strip_prefix p s = Some r \<Longrightarrow> length r \<le> length s"
  by (induction p s rule: strip_prefix.induct) (auto split: if_splits)


lemma consume_SomeD: "consume u q = Some (x, r) \<Longrightarrow> \<exists>y. q = Some (y, r) \<and> x = u # y"
  by (auto simp: consume_def split: option.splits)

lemma unquote_shorter: "unquote s = Some (x, r) \<Longrightarrow> length r < length s"
proof (induction s arbitrary: x r rule: unquote.induct)
  case 1
  then show ?case by simp
next
  case (2 c cs)
  note prem = "2.prems"
  consider (quote) "c = 0x22" | (esc) "c \<noteq> 0x22" "c = 0x5C" | (plain) "c \<noteq> 0x22" "c \<noteq> 0x5C"
    by blast
  then show ?case
  proof cases
    case quote
    with prem show ?thesis by simp
  next
    case plain
    with prem have nlt: "\<not> c < 0x20" and "consume c (unquote cs) = Some (x, r)"
      by (simp_all split: if_splits)
    then obtain y where "unquote cs = Some (y, r)"
      by (blast dest: consume_SomeD)
    from "2.IH"(3) [OF plain nlt this] show ?thesis by simp
  next
    case esc
    with prem obtain e es where cs: "cs = e # es"
      by (cases cs) simp_all
    show ?thesis
    proof (cases "e = 0x75")
      case True
      from prem esc cs True obtain h1 h2 h3 h4 rest where es: "es = h1 # h2 # h3 # h4 # rest"
        by (simp split: list.splits)
      from prem esc cs True es obtain u where h: "hex4 h1 h2 h3 h4 = Some u"
        and "consume u (unquote rest) = Some (x, r)"
        by (simp split: option.splits)
      then obtain y where "unquote rest = Some (y, r)"
        by (blast dest: consume_SomeD)
      from "2.IH"(1) [OF esc cs True es refl refl refl h this] show ?thesis
        by (simp add: cs es)
    next
      case False
      from prem esc cs False obtain u where h: "unescape e = Some u"
        and "consume u (unquote es) = Some (x, r)"
        by (simp split: option.splits)
      then obtain y where "unquote es = Some (y, r)"
        by (blast dest: consume_SomeD)
      from "2.IH"(2) [OF esc cs False h this] show ?thesis
        by (simp add: cs)
    qed
  qed
qed

lemma parse_bool_length: "parse_bool s = Some (b, r) \<Longrightarrow> length r \<le> length s"
  by (auto simp: parse_bool_def split: option.splits dest: strip_prefix_length)

lemma parse_todo_shorter: "parse_todo s = Some (t, r) \<Longrightarrow> length r < length s"
  unfolding parse_todo_def
  by (auto split: option.splits dest!: strip_prefix_length unquote_shorter parse_bool_length)

function parse_more :: "jsstring \<Rightarrow> todo list option" where
  "parse_more s =
     (case s of
        [] \<Rightarrow> None
      | c # cs \<Rightarrow>
          if c = 0x5D then (if cs = [] then Some [] else None)
          else if c = 0x2C then
            (case parse_todo cs of
               None \<Rightarrow> None
             | Some (t, r) \<Rightarrow> (case parse_more r of None \<Rightarrow> None | Some ts \<Rightarrow> Some (t # ts)))
          else None)"
  by pat_completeness auto
termination
  by (relation "measure length") (auto dest: parse_todo_shorter)

declare parse_more.simps [simp del]

definition JSON_parse :: "jsstring \<Rightarrow> exn + todo list" where
  "JSON_parse s =
     (case s of
        [] \<Rightarrow> Inl SyntaxError
      | c # cs \<Rightarrow>
          if c \<noteq> 0x5B then Inl SyntaxError
          else if cs = [0x5D] then Inr []
          else
            (case parse_todo cs of
               None \<Rightarrow> Inl SyntaxError
             | Some (t, r) \<Rightarrow>
                 (case parse_more r of None \<Rightarrow> Inl SyntaxError | Some ts \<Rightarrow> Inr (t # ts))))"


section \<open>The remote resource (\<open>useFetch\<close>)\<close>

text \<open>
  What the host gives back for one request. \<open>fetch\<close> rejects with a thrown value or
  resolves with a response; the response has \<open>ok\<close>, \<open>status\<close> and the outcome of
  \<open>response.json()\<close>, which rejects or resolves with the payload (\<open>None\<close> is the JSON
  \<open>null\<close>). A thrown value is an \<open>Error\<close> object, known by its message, or any other
  value.
\<close>

datatype thrown = Thrown_Error jsstring | Thrown_Other

record 'a response =
  ok :: bool
  status :: nat
  response_json :: "thrown + 'a option"

datatype 'a fetch_result = Rejects thrown | Resolves "'a response"

datatype js_error = Error jsstring

text \<open>
  The \<open>try\<close> block of \<open>fetchData\<close> after \<open>setLoading(true)\<close>, up to the value of
  \<open>json\<close> or the value thrown:
  \<^verbatim>\<open>const response = await fetch(url, options);
  if (!response.ok) throw new Error(`HTTP error! Status: ${response.status}`);
  const json = await response.json();\<close>
\<close>

definition fetchData_try :: "'a fetch_result \<Rightarrow> thrown + 'a option" where
  "fetchData_try r =
     (case r of
        Rejects err \<Rightarrow> Inl err
      | Resolves response \<Rightarrow>
          if \<not> ok response
          then Inl (Thrown_Error (js ''HTTP error! Status: '' @ Number_toString (status response)))
          else response_json response)"

text \<open>\<open>err instanceof Error ? err : new Error('An unknown error occurred')\<close>\<close>

definition as_Error :: "thrown \<Rightarrow> js_error" where
  "as_Error err =
     (case err of
        Thrown_Error message \<Rightarrow> Error message
      | Thrown_Other \<Rightarrow> Error (js ''An unknown error occurred''))"

text \<open>
  The hook's three state cells, the dependency list of the effect that ran last
  (\<open>url\<close> and \<open>JSON.stringify(options)\<close>), and one entry per run of the effect: the
  request it issued, its own \<open>isMounted\<close> variable, and whether its \<open>fetchData\<close> has
  finished.
\<close>

record request =
  req_url :: jsstring
  req_options :: jsstring
  isMounted :: bool
  finished :: bool

record 'a fetch_hook =
  data :: "'a option"
  loading :: bool
  error :: "js_error option"
  deps :: "jsstring \<times> jsstring"
  requests :: "request list"

definition setData :: "'a option \<Rightarrow> 'a fetch_hook \<Rightarrow> 'a fetch_hook" where
  "setData v s = s\<lparr>data := v\<rparr>"

definition setLoading :: "bool \<Rightarrow> 'a fetch_hook \<Rightarrow> 'a fetch_hook" where
  "setLoading v s = s\<lparr>loading := v\<rparr>"

definition setError :: "js_error option \<Rightarrow> 'a fetch_hook \<Rightarrow> 'a fetch_hook" where
  "setError v s = s\<lparr>error := v\<rparr>"

text \<open>
  One run of the effect: \<open>let isMounted = true\<close>, then \<open>fetchData()\<close> as far as its
  first \<open>await\<close>, that is \<open>setLoading(true)\<close> and the call of \<open>fetch(url, options)\<close>.
  Neither \<open>setError\<close> nor \<open>setData\<close> is called here.
\<close>

definition effect :: "jsstring \<Rightarrow> jsstring \<Rightarrow> 'a fetch_hook \<Rightarrow> 'a fetch_hook" where
  "effect url options s =
     (let s1 = setLoading True s
      in s1\<lparr>requests := requests s1 @
            [\<lparr>req_url = url, req_options = options, isMounted = True, finished = False\<rparr>]\<rparr>)"

text \<open>
  The cleanup of the effect that ran last, the last entry: \<open>isMounted = false\<close>.
  React runs a cleanup only after a run of the effect, so there is a last entry; on an
  empty list the update changes nothing.
\<close>

definition cleanup :: "'a fetch_hook \<Rightarrow> 'a fetch_hook" where
  "cleanup s =
     (let k = length (requests s) - 1
      in s\<lparr>requests := (requests s)[k := (requests s ! k)\<lparr>isMounted := False\<rparr>]\<rparr>)"

text \<open>
  The first render: \<open>useState(null)\<close>, \<open>useState(true)\<close>, \<open>useState(null)\<close>, then the
  effect.
\<close>

definition useFetch :: "jsstring \<Rightarrow> jsstring \<Rightarrow> 'a fetch_hook" where
  "useFetch url options =
     effect url options
       \<lparr>data = None, loading = True, error = None, deps = (url, options), requests = []\<rparr>"

text \<open>
  A later render with \<open>url\<close> and \<open>options\<close>: when a dependency differs from the last
  run's, the cleanup of that run and then the effect; otherwise nothing.
\<close>

definition rerender :: "jsstring \<Rightarrow> jsstring \<Rightarrow> 'a fetch_hook \<Rightarrow> 'a fetch_hook" where
  "rerender url options s =
     (if (url, options) = deps s then s
      else effect url options ((cleanup s)\<lparr>deps := (url, options)\<rparr>))"

text \<open>
  The rest of \<open>fetchData\<close> of the \<open>n\<close>-th run, once the host has answered with \<open>r\<close>:
  \<^verbatim>\<open>  if (isMounted) { setData(json); setError(null); }
  } catch (err) {
    if (isMounted) { setError(...); setData(null); }
  } finally {
    if (isMounted) { setLoading(false); }
  }\<close>
  The three tests read the \<open>isMounted\<close> of that run. The updates of one continuation
  are committed together (React 18 batches them), so the state after \<open>settle\<close> is the
  next one a render sees. A run finishes once; an answer for a run that does not exist
  or has finished changes nothing.
\<close>

definition settle :: "nat \<Rightarrow> 'a fetch_result \<Rightarrow> 'a fetch_hook \<Rightarrow> 'a fetch_hook" where
  "settle n r s =
     (if n < length (requests s) \<and> \<not> finished (requests s ! n) then
        let mounted = isMounted (requests s ! n);
            s0 = s\<lparr>requests := (requests s)[n := (requests s ! n)\<lparr>finished := True\<rparr>]\<rparr>;
            s1 = (case fetchData_try r of
                    Inr json \<Rightarrow> if mounted then setError None (setData json s0) else s0
                  | Inl err \<Rightarrow>
                      if mounted then setData None (setError (Some (as_Error err)) s0) else s0)
        in if mounted then setLoading False s1 else s1
      else s)"

text \<open>A history of the hook: renders and answers of the host, in any order.\<close>

datatype 'a event = Rerender jsstring jsstring | Settle nat "'a fetch_result"

fun step :: "'a fetch_hook \<Rightarrow> 'a event \<Rightarrow> 'a fetch_hook" where
  "step s (Rerender url options) = rerender url options s"
| "step s (Settle n r) = settle n r s"

definition run :: "jsstring \<Rightarrow> jsstring \<Rightarrow> 'a event list \<Rightarrow> 'a fetch_hook" where
  "run url options es = foldl step (useFetch url options) es"

text \<open>What a component reads from the hook: \<open>{ data, loading, error }\<close>.\<close>

definition observable :: "'a fetch_hook \<Rightarrow> 'a option \<times> bool \<times> js_error option" where
  "observable s = (data s, loading s, error s)"

text \<open>The state a finished request leaves when its writes are not suppressed.\<close>

definition outcome :: "'a fetch_result \<Rightarrow> 'a option \<times> bool \<times> js_error option" where
  "outcome r =
     (case fetchData_try r of
        Inr json \<Rightarrow> (json, False, None)
      | Inl err \<Rightarrow> (None, False, Some (as_Error err)))"

section \<open>Predicates used in the statements\<close>

text \<open>The text stored under \<open>'todos'\<close> is the serialisation of the array in memory.\<close>

definition synced :: "(todo list \<Rightarrow> jsstring) \<Rightarrow> hook \<Rightarrow> bool" where
  "synced stringify h \<longleftrightarrow> localStorage h (js ''todos'') = Some (stringify (todos h))"

text \<open>\<open>data\<close> and \<open>error\<close> are not both set.\<close>

definition exclusive :: "'a fetch_hook \<Rightarrow> bool" where
  "exclusive s \<longleftrightarrow> \<not> (data s \<noteq> None \<and> error s \<noteq> None)"

section \<open>Facts about the callbacks\<close>

lemma todos_setTodos [simp]: "todos (setTodos stringify ts h) = ts"
  by (simp add: setTodos_def saveEffect_def)

lemma stats_sum: "stats_active (stats h) + stats_completed (stats h) = stats_total (stats h)"
  by (simp add: stats_def sum_length_filter_compl add.commute)

text \<open>
  C1. Start from any collection and make any sequence of \<open>addTodo\<close>, \<open>toggleTodo\<close>,
  \<open>editTodo\<close>, \<open>deleteTodo\<close> and \<open>clearCompleted\<close> calls. After every call (after
  the first \<open>n\<close> calls, for every \<open>n\<close>) the derived statistics satisfy
  \<open>active + completed = total\<close>.
\<close>

theorem stats_invariant:
  "stats_active (stats (run_calls stringify h (take n cs)))
     + stats_completed (stats (run_calls stringify h (take n cs)))
   = stats_total (stats (run_calls stringify h (take n cs)))"
  by (rule stats_sum)

text \<open>
  What \<open>addTodo\<close> does with the array of its render: nothing when the text trims to
  the empty string; otherwise it writes that array with one record appended at the end,
  whose id is the decimal rendering of \<open>Date.now()\<close>, whose text is the trimmed input
  and which is not completed.
\<close>

lemma addTodo_appends:
  "(trim text = [] \<longrightarrow> addTodo stringify captured now text h = h) \<and>
   (trim text \<noteq> [] \<longrightarrow>
      todos (addTodo stringify captured now text h) =
        captured @ [\<lparr>todo_id = Number_toString now, todo_text = trim text,
                      todo_completed = False\<rparr>] \<and>
      length (todos (addTodo stringify captured now text h)) = Suc (length captured))"
  by (simp add: addTodo_def truthy_def)

lemma trim_empty: "trim (js []) = []"
  by (simp add: trim_def js_def)

lemma trim_spaces: "trim (js ''   '') = []"
  by (simp add: trim_def js_def is_white_space_def)

lemma trim_buy_milk: "trim (js ''buy milk'') = js ''buy milk''"
  by (simp add: trim_def js_def is_white_space_def)

lemma Number_toString_example: "Number_toString 1700000000000 = js ''1700000000000''"
  by (simp add: Number_toString.simps digit_def js_def)

lemma addTodo_examples:
  "addTodo stringify (todos h) now (js []) h = h"
  "addTodo stringify (todos h) now (js ''   '') h = h"
  "todos (addTodo stringify (todos h) 1700000000000 (js ''buy milk'') h) =
     todos h @ [\<lparr>todo_id = js ''1700000000000'', todo_text = js ''buy milk'',
                  todo_completed = False\<rparr>]"
proof -
  have ne: "trim (js ''buy milk'') \<noteq> []"
    by (simp add: trim_buy_milk) (simp add: js_def)
  show "addTodo stringify (todos h) now (js []) h = h"
    using addTodo_appends [where ?text = "js []"] by (simp add: trim_empty)
  show "addTodo stringify (todos h) now (js ''   '') h = h"
    using addTodo_appends [where ?text = "js ''   ''"] by (simp add: trim_spaces)
  show "todos (addTodo stringify (todos h) 1700000000000 (js ''buy milk'') h) =
     todos h @ [\<lparr>todo_id = js ''1700000000000'', todo_text = js ''buy milk'',
                  todo_completed = False\<rparr>]"
    using addTodo_appends [where ?text = "js ''buy milk''" and now = 1700000000000] ne
    by (simp add: trim_buy_milk Number_toString_example)
qed

text \<open>The appended id is new exactly when the clock's rendering is not yet an id.\<close>

lemma addTodo_distinct_ids:
  "trim text \<noteq> [] \<Longrightarrow> distinct (map todo_id captured) \<Longrightarrow>
   distinct (map todo_id (todos (addTodo stringify captured now text h)))
     \<longleftrightarrow> Number_toString now \<notin> set (map todo_id captured)"
  by (simp add: addTodo_def truthy_def Let_def)

text \<open>
  C8. The collection holds a record with the id \<open>1700000000000\<close> and \<open>addTodo\<close> reads
  that value from \<open>Date.now()\<close>. One record is appended at the end, with the trimmed
  text and not completed, and the size grows by one; but its id is not fresh: it is the
  id of the record already there.
\<close>

theorem addTodo_id_not_fresh:
  "todos (addTodo JSON_stringify
      [\<lparr>todo_id = js ''1700000000000'', todo_text = js ''a'', todo_completed = False\<rparr>]
      1700000000000 (js ''buy milk'')
      \<lparr>todos = [\<lparr>todo_id = js ''1700000000000'', todo_text = js ''a'', todo_completed = False\<rparr>],
       localStorage = Map.empty\<rparr>)
     = [\<lparr>todo_id = js ''1700000000000'', todo_text = js ''a'', todo_completed = False\<rparr>,
        \<lparr>todo_id = js ''1700000000000'', todo_text = js ''buy milk'', todo_completed = False\<rparr>] \<and>
   todo_id (last (todos (addTodo JSON_stringify
      [\<lparr>todo_id = js ''1700000000000'', todo_text = js ''a'', todo_completed = False\<rparr>]
      1700000000000 (js ''buy milk'')
      \<lparr>todos = [\<lparr>todo_id = js ''1700000000000'', todo_text = js ''a'', todo_completed = False\<rparr>],
       localStorage = Map.empty\<rparr>)))
     \<in> set (map todo_id
        [\<lparr>todo_id = js ''1700000000000'', todo_text = js ''a'', todo_completed = False\<rparr>])"
proof -
  have t: "truthy (js ''buy milk'')"
    by (simp add: truthy_def js_def)
  show ?thesis
    by (simp add: addTodo_def Let_def trim_buy_milk t Number_toString_example)
qed

text \<open>
  C9, as stated, fails: two calls of the \<open>toggleTodo\<close> of one render both map the array
  of that render, so the second writes the once-toggled array again and the record stays
  flipped.
\<close>

theorem toggleTodo_twice_one_render:
  "todos (toggleTodo JSON_stringify
      [\<lparr>todo_id = js ''1'', todo_text = js ''a'', todo_completed = False\<rparr>] (js ''1'')
      (toggleTodo JSON_stringify
         [\<lparr>todo_id = js ''1'', todo_text = js ''a'', todo_completed = False\<rparr>] (js ''1'')
         \<lparr>todos = [\<lparr>todo_id = js ''1'', todo_text = js ''a'', todo_completed = False\<rparr>],
          localStorage = Map.empty\<rparr>))
     = [\<lparr>todo_id = js ''1'', todo_text = js ''a'', todo_completed = True\<rparr>] \<and>
   todos (toggleTodo JSON_stringify
      [\<lparr>todo_id = js ''1'', todo_text = js ''a'', todo_completed = False\<rparr>] (js ''1'')
      (toggleTodo JSON_stringify
         [\<lparr>todo_id = js ''1'', todo_text = js ''a'', todo_completed = False\<rparr>] (js ''1'')
         \<lparr>todos = [\<lparr>todo_id = js ''1'', todo_text = js ''a'', todo_completed = False\<rparr>],
          localStorage = Map.empty\<rparr>))
     \<noteq> [\<lparr>todo_id = js ''1'', todo_text = js ''a'', todo_completed = False\<rparr>]"
  by (simp add: toggleTodo_def)

text \<open>
  C9, amended. When the second call is made through the \<open>toggleTodo\<close> of the render
  that follows the first call, the two calls give back the original collection: every
  record, the matching ones included, has its original \<open>completed\<close> value. Two calls
  through the \<open>toggleTodo\<close> of one render leave the collection as one call does.
\<close>

theorem toggleTodo_involution:
  "todos (toggleTodo stringify (todos (toggleTodo stringify (todos h) i h)) i
      (toggleTodo stringify (todos h) i h)) = todos h \<and>
   todos (toggleTodo stringify captured i (toggleTodo stringify captured i h))
     = todos (toggleTodo stringify captured i h)"
proof -
  let ?f = "\<lambda>t::todo. if todo_id t = i then t\<lparr>todo_completed := \<not> todo_completed t\<rparr> else t"
  have "?f (?f t) = t" for t
    by simp
  then have "map (?f \<circ> ?f) (todos h) = todos h"
    by (intro map_idI) (simp only: comp_apply)
  then show ?thesis
    by (simp add: toggleTodo_def)
qed

lemma editTodo_blank: "trim newText = [] \<Longrightarrow> editTodo stringify captured i newText h = h"
  by (simp add: editTodo_def truthy_def)

lemma editTodo_todos:
  "trim newText \<noteq> [] \<Longrightarrow> todos (editTodo stringify captured i newText h) =
     map (\<lambda>t. if todo_id t = i then t\<lparr>todo_text := trim newText\<rparr> else t) captured"
  by (simp add: editTodo_def truthy_def)

text \<open>
  C10. \<open>editTodo\<close>, called through the callback of the latest render, with a text that
  trims to the empty string leaves the hook as it is. Otherwise the collection keeps its
  length and its order; at every position the id and the \<open>completed\<close> flag are
  unchanged, a record whose id matches gets the trimmed text, and every other record is
  unchanged.
\<close>

theorem editTodo_frame:
  "(trim newText = [] \<longrightarrow> editTodo stringify (todos h) i newText h = h) \<and>
   (trim newText \<noteq> [] \<longrightarrow>
      length (todos (editTodo stringify (todos h) i newText h)) = length (todos h) \<and>
      (\<forall>k < length (todos h).
         todo_id (todos (editTodo stringify (todos h) i newText h) ! k) = todo_id (todos h ! k) \<and>
         todo_completed (todos (editTodo stringify (todos h) i newText h) ! k)
           = todo_completed (todos h ! k) \<and>
         (todo_id (todos h ! k) = i \<longrightarrow>
            todos (editTodo stringify (todos h) i newText h) ! k
              = (todos h ! k)\<lparr>todo_text := trim newText\<rparr>) \<and>
         (todo_id (todos h ! k) \<noteq> i \<longrightarrow>
            todos (editTodo stringify (todos h) i newText h) ! k = todos h ! k)))"
proof (intro conjI impI allI)
  assume "trim newText = []"
  then show "editTodo stringify (todos h) i newText h = h"
    by (rule editTodo_blank)
next
  assume ne: "trim newText \<noteq> []"
  show "length (todos (editTodo stringify (todos h) i newText h)) = length (todos h)"
    by (simp only: editTodo_todos [OF ne] length_map)
next
  fix k assume ne: "trim newText \<noteq> []" and k: "k < length (todos h)"
  show "todo_id (todos (editTodo stringify (todos h) i newText h) ! k) = todo_id (todos h ! k)"
    using k by (simp only: editTodo_todos [OF ne] nth_map) simp
  show "todo_completed (todos (editTodo stringify (todos h) i newText h) ! k)
      = todo_completed (todos h ! k)"
    using k by (simp only: editTodo_todos [OF ne] nth_map) simp
  show "todos (editTodo stringify (todos h) i newText h) ! k
      = (todos h ! k)\<lparr>todo_text := trim newText\<rparr>"
    if "todo_id (todos h ! k) = i"
    using k that by (simp only: editTodo_todos [OF ne] nth_map) simp
  show "todos (editTodo stringify (todos h) i newText h) ! k = todos h ! k"
    if "todo_id (todos h ! k) \<noteq> i"
    using k that by (simp only: editTodo_todos [OF ne] nth_map) simp
qed

theorem editTodo_frame_witness:
  "trim (js '' buy oat milk '') \<noteq> [] \<and> trim (js ''  '') = [] \<and>
   length (todos (editTodo JSON_stringify
     [\<lparr>todo_id = js ''1'', todo_text = js ''buy milk'', todo_completed = True\<rparr>,
      \<lparr>todo_id = js ''2'', todo_text = js ''walk'', todo_completed = False\<rparr>]
     (js ''1'') (js '' buy oat milk '')
     \<lparr>todos = [\<lparr>todo_id = js ''1'', todo_text = js ''buy milk'', todo_completed = True\<rparr>,
               \<lparr>todo_id = js ''2'', todo_text = js ''walk'', todo_completed = False\<rparr>],
      localStorage = Map.empty\<rparr>)) = 2 \<and>
   todos (editTodo JSON_stringify
     [\<lparr>todo_id = js ''1'', todo_text = js ''buy milk'', todo_completed = True\<rparr>,
      \<lparr>todo_id = js ''2'', todo_text = js ''walk'', todo_completed = False\<rparr>]
     (js ''1'') (js '' buy oat milk '')
     \<lparr>todos = [\<lparr>todo_id = js ''1'', todo_text = js ''buy milk'', todo_completed = True\<rparr>,
               \<lparr>todo_id = js ''2'', todo_text = js ''walk'', todo_completed = False\<rparr>],
      localStorage = Map.empty\<rparr>) ! 0
     = \<lparr>todo_id = js ''1'', todo_text = js ''buy oat milk'', todo_completed = True\<rparr> \<and>
   todos (editTodo JSON_stringify
     [\<lparr>todo_id = js ''1'', todo_text = js ''buy milk'', todo_completed = True\<rparr>,
      \<lparr>todo_id = js ''2'', todo_text = js ''walk'', todo_completed = False\<rparr>]
     (js ''1'') (js '' buy oat milk '')
     \<lparr>todos = [\<lparr>todo_id = js ''1'', todo_text = js ''buy milk'', todo_completed = True\<rparr>,
               \<lparr>todo_id = js ''2'', todo_text = js ''walk'', todo_completed = False\<rparr>],
      localStorage = Map.empty\<rparr>) ! 1
     = \<lparr>todo_id = js ''2'', todo_text = js ''walk'', todo_completed = False\<rparr> \<and>
   editTodo JSON_stringify
     [\<lparr>todo_id = js ''1'', todo_text = js ''buy milk'', todo_completed = True\<rparr>,
      \<lparr>todo_id = js ''2'', todo_text = js ''walk'', todo_completed = False\<rparr>]
     (js ''1'') (js ''  '')
     \<lparr>todos = [\<lparr>todo_id = js ''1'', todo_text = js ''buy milk'', todo_completed = True\<rparr>,
               \<lparr>todo_id = js ''2'', todo_text = js ''walk'', todo_completed = False\<rparr>],
      localStorage = Map.empty\<rparr>
     = \<lparr>todos = [\<lparr>todo_id = js ''1'', todo_text = js ''buy milk'', todo_completed = True\<rparr>,
               \<lparr>todo_id = js ''2'', todo_text = js ''walk'', todo_completed = False\<rparr>],
      localStorage = Map.empty\<rparr>"
proof -
  let ?a = "\<lparr>todo_id = js ''1'', todo_text = js ''buy milk'', todo_completed = True\<rparr>"
  let ?b = "\<lparr>todo_id = js ''2'', todo_text = js ''walk'', todo_completed = False\<rparr>"
  let ?h = "\<lparr>todos = [?a, ?b], localStorage = Map.empty\<rparr>"
  have t: "trim (js '' buy oat milk '') = js ''buy oat milk''"
    by (simp add: trim_def js_def is_white_space_def)
  have ne: "trim (js '' buy oat milk '') \<noteq> []"
    by (simp add: t) (simp add: js_def)
  have blank: "trim (js ''  '') = []"
    by (simp add: trim_def js_def is_white_space_def)
  have ids: "js ''1'' \<noteq> js ''2''"
    by (simp add: js_def)
  have ts: "todos ?h = [?a, ?b]"
    by simp
  note frame = editTodo_frame [where newText = "js '' buy oat milk ''"
      and stringify = JSON_stringify and i = "js ''1''" and h = ?h, unfolded ts]
  from frame ne
  have len: "length (todos (editTodo JSON_stringify [?a, ?b] (js ''1'') (js '' buy oat milk '') ?h)) = 2"
    by simp
  from frame ne
  have k0: "todos (editTodo JSON_stringify [?a, ?b] (js ''1'') (js '' buy oat milk '') ?h) ! 0
      = \<lparr>todo_id = js ''1'', todo_text = js ''buy oat milk'', todo_completed = True\<rparr>"
    by (simp add: t)
  from frame ne ids
  have k1: "todos (editTodo JSON_stringify [?a, ?b] (js ''1'') (js '' buy oat milk '') ?h) ! 1 = ?b"
    by simp
  from editTodo_frame [where newText = "js ''  ''" and stringify = JSON_stringify
      and i = "js ''1''" and h = ?h, unfolded ts] blank
  have noop: "editTodo JSON_stringify [?a, ?b] (js ''1'') (js ''  '') ?h = ?h"
    by simp
  from ne blank len k0 k1 noop show ?thesis
    by simp
qed

lemma addTodo_twice_same_clock:
  "trim a \<noteq> [] \<Longrightarrow> trim b \<noteq> [] \<Longrightarrow>
   map todo_id (todos (run_calls stringify h [AddTodo now a, AddTodo now b]))
     = map todo_id (todos h) @ [Number_toString now, Number_toString now]"
  by (simp add: run_calls_def addTodo_def truthy_def Let_def)

text \<open>
  C7. Two \<open>addTodo\<close> calls, the second through the callback of the render that follows
  the first, that read the same value of \<open>Date.now()\<close> give their records the same id:
  the collection then holds two records with one id.
\<close>

theorem addTodo_same_millisecond:
  "map todo_id (todos (run_calls JSON_stringify \<lparr>todos = [], localStorage = Map.empty\<rparr>
      [AddTodo 1700000000000 (js ''a''), AddTodo 1700000000000 (js ''b'')]))
     = [js ''1700000000000'', js ''1700000000000''] \<and>
   \<not> distinct (map todo_id (todos (run_calls JSON_stringify \<lparr>todos = [], localStorage = Map.empty\<rparr>
      [AddTodo 1700000000000 (js ''a''), AddTodo 1700000000000 (js ''b'')])))"
proof -
  have n: "Number_toString 1700000000000 = js ''1700000000000''"
    by (simp add: Number_toString.simps digit_def js_def)
  have a: "trim (js ''a'') = js ''a''" and b: "trim (js ''b'') = js ''b''"
    by (simp_all add: trim_def js_def is_white_space_def)
  have t: "truthy (js ''a'')" "truthy (js ''b'')"
    by (simp_all add: truthy_def js_def)
  show ?thesis
    by (simp add: run_calls_def addTodo_def Let_def a b t n)
qed


section \<open>The JSON text read back\<close>

lemma strip_prefix_append: "strip_prefix p (p @ s) = Some s"
  by (induction p) simp_all

lemma unat_of_nat_small: "n < 65536 \<Longrightarrow> unat (of_nat n :: code_unit) = n"
  by (simp add: unat_of_nat)

lemma hex_value_hex_digit:
  assumes "d < 16"
  shows "hex_value (hex_digit d) = Some d"
proof (cases "d < 10")
  case True
  then have u: "unat (of_nat (48 + d) :: code_unit) = 48 + d"
    by (intro unat_of_nat_small) simp
  have "hex_value (of_nat (48 + d)) = Some d"
    unfolding hex_value_def word_le_nat_alt u using True by simp
  with True show ?thesis
    by (simp only: hex_digit_def if_True)
next
  case False
  with assms have u: "unat (of_nat (87 + d) :: code_unit) = 87 + d"
    by (intro unat_of_nat_small) simp
  have "hex_value (of_nat (87 + d)) = Some d"
    unfolding hex_value_def word_le_nat_alt u using False assms by simp
  with False show ?thesis
    by (simp only: hex_digit_def if_False)
qed

lemma digits_sum:
  "4096 * (n div 4096) + 256 * (n div 256 mod 16) + 16 * (n div 16 mod 16) + n mod 16 = (n::nat)"
proof -
  have d1: "n div 256 = n div 16 div 16" and d2: "n div 4096 = n div 256 div 16"
    by (simp_all add: div_mult2_eq [symmetric])
  have a: "n = 16 * (n div 16) + n mod 16"
    by simp
  have b: "n div 16 = 16 * (n div 256) + n div 16 mod 16"
    unfolding d1 by simp
  have c: "n div 256 = 16 * (n div 4096) + n div 256 mod 16"
    unfolding d2 by simp
  from a b c show ?thesis
    by linarith
qed

lemma hex4_unicode_digits:
  fixes c :: code_unit
  shows "hex4 (hex_digit (unat c div 4096)) (hex_digit (unat c div 256 mod 16))
           (hex_digit (unat c div 16 mod 16)) (hex_digit (unat c mod 16)) = Some c"
proof -
  have "unat c < 65536"
    using unsigned_less [of c, where 'a = nat] by simp
  then have d: "unat c div 4096 < 16"
    by simp
  have v: "hex_value (hex_digit (unat c div 4096)) = Some (unat c div 4096)"
    "hex_value (hex_digit (unat c div 256 mod 16)) = Some (unat c div 256 mod 16)"
    "hex_value (hex_digit (unat c div 16 mod 16)) = Some (unat c div 16 mod 16)"
    "hex_value (hex_digit (unat c mod 16)) = Some (unat c mod 16)"
    using d by (simp_all add: hex_value_hex_digit)
  show ?thesis
    unfolding hex4_def v by (simp only: prod.case option.case digits_sum of_nat_unat) simp
qed

lemma unquote_unicode_escape: "unquote (unicode_escape c @ s) = consume c (unquote s)"
  by (simp add: unicode_escape_def hex4_unicode_digits)


lemma unquote_quote_unit: "unquote (quote_unit c @ s) = consume c (unquote s)"
proof -
  consider (special) "c = 0x08 \<or> c = 0x09 \<or> c = 0x0A \<or> c = 0x0C \<or> c = 0x0D \<or> c = 0x22 \<or> c = 0x5C"
    | (escaped) "\<not> (c = 0x08 \<or> c = 0x09 \<or> c = 0x0A \<or> c = 0x0C \<or> c = 0x0D \<or> c = 0x22 \<or> c = 0x5C)"
        "c < 0x20 \<or> is_high_surrogate c \<or> is_low_surrogate c"
    | (plain) "\<not> (c = 0x08 \<or> c = 0x09 \<or> c = 0x0A \<or> c = 0x0C \<or> c = 0x0D \<or> c = 0x22 \<or> c = 0x5C)"
        "\<not> (c < 0x20 \<or> is_high_surrogate c \<or> is_low_surrogate c)"
    by blast
  then show ?thesis
  proof cases
    case special
    then show ?thesis
      by (elim disjE) (simp_all add: quote_unit_def unescape_def)
  next
    case escaped
    then have "quote_unit c = unicode_escape c"
      by (simp add: quote_unit_def)
    then show ?thesis
      by (simp only: unquote_unicode_escape)
  next
    case plain
    then have "quote_unit c = [c]"
      by (simp add: quote_unit_def)
    with plain show ?thesis
      by simp
  qed
qed

lemma surrogate_plain:
  "is_high_surrogate c \<or> is_low_surrogate c \<Longrightarrow> c \<noteq> 0x22 \<and> c \<noteq> 0x5C \<and> \<not> c < 0x20"
  by (auto simp: is_high_surrogate_def is_low_surrogate_def word_le_nat_alt word_less_nat_alt)


lemma unquote_pair:
  "is_high_surrogate c \<Longrightarrow> is_low_surrogate d \<Longrightarrow>
   unquote (c # d # s) = consume c (consume d (unquote s))"
  using surrogate_plain [of c] surrogate_plain [of d] by simp

lemma unquote_quote_units: "unquote (quote_units s @ 0x22 # rest) = Some (s, rest)"
proof (induction s rule: quote_units.induct)
  case 1
  show ?case by simp
next
  case (2 c)
  show ?case
    by (simp only: quote_units.simps unquote_quote_unit) (simp add: consume_def)
next
  case (3 c d cs)
  show ?case
  proof (cases "is_high_surrogate c \<and> is_low_surrogate d")
    case True
    then have "quote_units (c # d # cs) @ 0x22 # rest = c # d # (quote_units cs @ 0x22 # rest)"
      by simp
    with True "3.IH"(1) show ?thesis
      by (simp only: unquote_pair) (simp add: consume_def)
  next
    case False
    then have "quote_units (c # d # cs) @ 0x22 # rest
        = quote_unit c @ (quote_units (d # cs) @ 0x22 # rest)"
      by auto
    with False "3.IH"(2) show ?thesis
      by (simp only: unquote_quote_unit) (simp add: consume_def)
  qed
qed

lemma unquote_QuoteJSONString:
  "unquote (tl (QuoteJSONString s) @ rest) = Some (s, rest)"
  by (simp add: QuoteJSONString_def unquote_quote_units)


lemma parse_bool_true: "parse_bool (js ''true'' @ s) = Some (True, s)"
  by (simp add: parse_bool_def strip_prefix_append)

lemma parse_bool_false: "parse_bool (js ''false'' @ s) = Some (False, s)"
proof -
  have "strip_prefix (js ''true'') (js ''false'' @ s) = None"
    by (simp add: js_def)
  then show ?thesis
    by (simp add: parse_bool_def strip_prefix_append)
qed

lemma stringify_todo_shape:
  "stringify_todo t @ rest =
     (0x7B # QuoteJSONString (js ''id'') @ [0x3A, 0x22]) @
     (quote_units (todo_id t) @ 0x22 #
     ((0x2C # QuoteJSONString (js ''text'') @ [0x3A, 0x22]) @
     (quote_units (todo_text t) @ 0x22 #
     ((0x2C # QuoteJSONString (js ''completed'') @ [0x3A]) @
     ((if todo_completed t then js ''true'' else js ''false'') @ ([0x7D] @ rest))))))"
  by (simp add: stringify_todo_def QuoteJSONString_def)

lemma parse_todo_stringify_todo: "parse_todo (stringify_todo t @ rest) = Some (t, rest)"
proof -
  have b: "parse_bool ((if todo_completed t then js ''true'' else js ''false'') @ ([0x7D] @ rest))
      = Some (todo_completed t, [0x7D] @ rest)"
    by (simp only: parse_bool_true parse_bool_false split: if_split) simp
  show ?thesis
    unfolding parse_todo_def stringify_todo_shape
    by (simp only: strip_prefix_append unquote_quote_units b option.case prod.case) simp
qed

lemma stringify_todo_head: "\<exists>s. stringify_todo t = 0x7B # s"
  by (simp add: stringify_todo_def)

lemma commas_Cons:
  "commas (f t # map f ts) = f t @ concat (map (\<lambda>t. 0x2C # f t) ts)"
  by (induction ts arbitrary: t) simp_all

lemma parse_more_items:
  "parse_more (concat (map (\<lambda>t. 0x2C # stringify_todo t) ts) @ [0x5D]) = Some ts"
proof (induction ts)
  case Nil
  show ?case by (simp add: parse_more.simps)
next
  case (Cons t ts)
  have "parse_more (concat (map (\<lambda>t. 0x2C # stringify_todo t) (t # ts)) @ [0x5D])
      = parse_more (0x2C # (stringify_todo t @
          (concat (map (\<lambda>t. 0x2C # stringify_todo t) ts) @ [0x5D])))"
    by simp
  also have "\<dots> = Some (t # ts)"
    by (subst parse_more.simps) (simp add: parse_todo_stringify_todo Cons.IH)
  finally show ?case .
qed

lemma JSON_parse_stringify: "JSON_parse (JSON_stringify ts) = Inr ts"
proof (cases ts)
  case Nil
  then show ?thesis
    by (simp add: JSON_parse_def JSON_stringify_def)
next
  case (Cons t ts')
  obtain s where s: "stringify_todo t = 0x7B # s"
    using stringify_todo_head by blast
  have shape: "JSON_stringify ts =
      0x5B # (stringify_todo t @ (concat (map (\<lambda>t. 0x2C # stringify_todo t) ts') @ [0x5D]))"
    by (simp add: JSON_stringify_def Cons commas_Cons)
  have ne: "stringify_todo t @ (concat (map (\<lambda>t. 0x2C # stringify_todo t) ts') @ [0x5D]) \<noteq> [0x5D]"
    by (simp add: s)
  show ?thesis
    unfolding shape JSON_parse_def
    by (simp only: list.case ne if_False parse_todo_stringify_todo parse_more_items
          option.case prod.case Cons) simp
qed

lemma truthy_JSON_stringify: "truthy (JSON_stringify ts)"
  by (simp add: truthy_def JSON_stringify_def)

section \<open>Persistence of the todo store\<close>

lemma synced_saveEffect: "synced stringify (saveEffect stringify h)"
  by (simp add: synced_def saveEffect_def)

lemma synced_setTodos: "synced stringify (setTodos stringify ts h)"
  by (simp add: setTodos_def synced_saveEffect)

lemma synced_apply_call: "synced stringify h \<Longrightarrow> synced stringify (apply_call stringify h c)"
  by (cases c)
    (simp_all add: addTodo_def toggleTodo_def editTodo_def deleteTodo_def clearCompleted_def
      Let_def synced_setTodos)

lemma synced_run_calls: "synced stringify h \<Longrightarrow> synced stringify (run_calls stringify h cs)"
  unfolding run_calls_def
  by (induction cs arbitrary: h) (simp_all add: synced_apply_call)

lemma synced_useTodos: "useTodos parse stringify st = Inr h \<Longrightarrow> synced stringify h"
  by (auto simp: useTodos_def synced_saveEffect split: sum.splits)

text \<open>
  What the round trip needs from the host: the text it writes for the array is not
  empty, and parsing it gives the array back.
\<close>

lemma useTodos_init_synced:
  "synced stringify h \<Longrightarrow> truthy (stringify (todos h)) \<Longrightarrow>
   parse (stringify (todos h)) = Inr (todos h) \<Longrightarrow>
   useTodos_init parse (localStorage h) = Inr (todos h)"
  by (simp add: useTodos_init_def synced_def)

lemma useTodos_synced:
  assumes "synced stringify h" and "truthy (stringify (todos h))"
    and "parse (stringify (todos h)) = Inr (todos h)"
  shows "useTodos parse stringify (localStorage h) = Inr h"
proof -
  from assms(1) have "(localStorage h)(js ''todos'' \<mapsto> stringify (todos h)) = localStorage h"
    by (simp add: synced_def fun_upd_idem)
  then have "saveEffect stringify \<lparr>todos = todos h, localStorage = localStorage h\<rparr> = h"
    by (simp add: saveEffect_def)
  moreover have "useTodos_init parse (localStorage h) = Inr (todos h)"
    using assms by (rule useTodos_init_synced)
  ultimately show ?thesis
    by (simp add: useTodos_def)
qed

text \<open>
  C3. Mount the store on any storage it can be mounted on, make any calls, then one
  more call. The text then stored under \<open>'todos'\<close> is the serialisation of the array in
  memory, the initialiser of a fresh store reads exactly that array from it, and mounting
  a fresh store on the storage gives the same state.
\<close>

theorem persistence_round_trip:
  assumes "useTodos JSON_parse JSON_stringify st = Inr h0"
    and "h = apply_call JSON_stringify (run_calls JSON_stringify h0 cs) c"
  shows "localStorage h (js ''todos'') = Some (JSON_stringify (todos h)) \<and>
         useTodos_init JSON_parse (localStorage h) = Inr (todos h) \<and>
         useTodos JSON_parse JSON_stringify (localStorage h) = Inr h"
proof -
  from assms have sy: "synced JSON_stringify h"
    by (simp add: synced_useTodos synced_run_calls synced_apply_call)
  from sy have "localStorage h (js ''todos'') = Some (JSON_stringify (todos h))"
    by (simp add: synced_def)
  moreover from sy have "useTodos_init JSON_parse (localStorage h) = Inr (todos h)"
    by (rule useTodos_init_synced) (simp_all add: truthy_JSON_stringify JSON_parse_stringify)
  moreover from sy have "useTodos JSON_parse JSON_stringify (localStorage h) = Inr h"
    by (rule useTodos_synced) (simp_all add: truthy_JSON_stringify JSON_parse_stringify)
  ultimately show ?thesis
    by simp
qed

theorem persistence_round_trip_witness:
  "useTodos JSON_parse JSON_stringify Map.empty
     = Inr \<lparr>todos = [], localStorage = [js ''todos'' \<mapsto> js ''[]'']\<rparr> \<and>
   todos (apply_call JSON_stringify
      (run_calls JSON_stringify \<lparr>todos = [], localStorage = [js ''todos'' \<mapsto> js ''[]'']\<rparr>
         [AddTodo 1700000000000 (js ''buy milk'')])
      (ToggleTodo (js ''1700000000000'')))
     = [\<lparr>todo_id = js ''1700000000000'', todo_text = js ''buy milk'', todo_completed = True\<rparr>] \<and>
   localStorage (apply_call JSON_stringify
      (run_calls JSON_stringify \<lparr>todos = [], localStorage = [js ''todos'' \<mapsto> js ''[]'']\<rparr>
         [AddTodo 1700000000000 (js ''buy milk'')])
      (ToggleTodo (js ''1700000000000''))) (js ''todos'')
     = Some (js ''[{'' @ 0x22 # js ''id'' @ 0x22 # js '':'' @ 0x22 # js ''1700000000000'' @ 0x22 # js '','' @ 0x22 # js ''text'' @ 0x22 # js '':'' @ 0x22 # js ''buy milk'' @ 0x22 # js '','' @ 0x22 # js ''completed'' @ 0x22 # js '':true}]'') \<and>
   useTodos_init JSON_parse (localStorage (apply_call JSON_stringify
      (run_calls JSON_stringify \<lparr>todos = [], localStorage = [js ''todos'' \<mapsto> js ''[]'']\<rparr>
         [AddTodo 1700000000000 (js ''buy milk'')])
      (ToggleTodo (js ''1700000000000''))))
     = Inr [\<lparr>todo_id = js ''1700000000000'', todo_text = js ''buy milk'', todo_completed = True\<rparr>]"
proof -
  let ?mounted = "\<lparr>todos = [], localStorage = [js ''todos'' \<mapsto> js ''[]'']\<rparr>"
  let ?final = "apply_call JSON_stringify
      (run_calls JSON_stringify ?mounted [AddTodo 1700000000000 (js ''buy milk'')])
      (ToggleTodo (js ''1700000000000''))"
  let ?ts = "[\<lparr>todo_id = js ''1700000000000'', todo_text = js ''buy milk'', todo_completed = True\<rparr>]"
  have s0: "JSON_stringify [] = js ''[]''"
    by (simp add: JSON_stringify_def js_def)
  have mount: "useTodos JSON_parse JSON_stringify Map.empty = Inr ?mounted"
    by (simp add: useTodos_def useTodos_init_def saveEffect_def s0)
  have n: "Number_toString 1700000000000 = js ''1700000000000''"
    by (simp add: Number_toString.simps digit_def js_def)
  have t: "truthy (js ''buy milk'')"
    by (simp add: truthy_def js_def)
  have ts: "todos ?final = ?ts"
    by (simp add: run_calls_def addTodo_def toggleTodo_def Let_def trim_buy_milk t n)
  have rendered: "JSON_stringify ?ts = js ''[{'' @ 0x22 # js ''id'' @ 0x22 # js '':'' @ 0x22 # js ''1700000000000'' @ 0x22 # js '','' @ 0x22 # js ''text'' @ 0x22 # js '':'' @ 0x22 # js ''buy milk'' @ 0x22 # js '','' @ 0x22 # js ''completed'' @ 0x22 # js '':true}]''"
    by (simp add: JSON_stringify_def stringify_todo_def QuoteJSONString_def quote_unit_def
        is_high_surrogate_def is_low_surrogate_def js_def)
  note round_trip = persistence_round_trip
    [where cs = "[AddTodo 1700000000000 (js ''buy milk'')]"
      and c = "ToggleTodo (js ''1700000000000'')", OF mount refl]
  from round_trip have "localStorage ?final (js ''todos'') = Some (JSON_stringify (todos ?final))"
    by (rule conjunct1)
  then have stored: "localStorage ?final (js ''todos'') = Some (js ''[{'' @ 0x22 # js ''id'' @ 0x22 # js '':'' @ 0x22 # js ''1700000000000'' @ 0x22 # js '','' @ 0x22 # js ''text'' @ 0x22 # js '':'' @ 0x22 # js ''buy milk'' @ 0x22 # js '','' @ 0x22 # js ''completed'' @ 0x22 # js '':true}]'')"
    by (simp only: ts rendered)
  from round_trip have "useTodos_init JSON_parse (localStorage ?final) = Inr (todos ?final)"
    by (rule conjunct2 [THEN conjunct1])
  then have "useTodos_init JSON_parse (localStorage ?final) = Inr ?ts"
    by (simp only: ts)
  with mount ts stored show ?thesis
    by (simp only: simp_thms)
qed

section \<open>Initialisation from stored text\<close>

lemma useLocalStorage_init_never_throws:
  "\<exists>v. useLocalStorage_init window_defined parse st key initialValue = Inr v"
  by (simp add: useLocalStorage_init_def try_catch_def split: option.splits sum.splits)

lemma useLocalStorage_init_default:
  "st key = None \<or> (\<exists>item. st key = Some item \<and> (item = [] \<or> (\<exists>e. parse item = Inl e))) \<Longrightarrow>
   useLocalStorage_init window_defined parse st key initialValue = Inr initialValue"
  by (auto simp: useLocalStorage_init_def try_catch_def truthy_def split: option.splits sum.splits)

lemma useLocalStorage_init_stored:
  "st key = Some item \<Longrightarrow> item \<noteq> [] \<Longrightarrow> parse item = Inr v \<Longrightarrow>
   useLocalStorage_init True parse st key initialValue = Inr v"
  by (simp add: useLocalStorage_init_def try_catch_def truthy_def)

lemma useTodos_init_absent: "st (js ''todos'') = None \<Longrightarrow> useTodos_init parse st = Inr []"
  by (simp add: useTodos_init_def)

lemma useTodos_init_throws:
  "st (js ''todos'') = Some item \<Longrightarrow> item \<noteq> [] \<Longrightarrow> parse item = Inl e \<Longrightarrow>
   useTodos_init parse st = Inl e"
  by (simp add: useTodos_init_def truthy_def)

lemmas parse_eval = JSON_parse_def parse_todo_def parse_bool_def parse_more.simps consume_def
  hex4_def hex_value_def unescape_def QuoteJSONString_def quote_unit_def
  is_high_surrogate_def is_low_surrogate_def


text \<open>
  C4. With the text \<open>{\<close> stored under \<open>'todos'\<close>, which is not JSON, the initialiser of
  \<open>useTodos\<close> throws the \<open>SyntaxError\<close> of \<open>JSON.parse\<close> and so does mounting the hook;
  \<open>useLocalStorage\<close> on the same storage and key catches it and returns its default.
\<close>

theorem useTodos_malformed_throws:
  "useTodos_init JSON_parse [js ''todos'' \<mapsto> js ''{''] = Inl SyntaxError \<and>
   useTodos JSON_parse JSON_stringify [js ''todos'' \<mapsto> js ''{''] = Inl SyntaxError \<and>
   useLocalStorage_init True JSON_parse [js ''todos'' \<mapsto> js ''{''] (js ''todos'') [] = Inr []"
proof -
  have p: "JSON_parse (js ''{'') = Inl SyntaxError"
    by (simp add: parse_eval js_def)
  have t: "truthy (js ''{'')"
    by (simp add: truthy_def js_def)
  show ?thesis
    by (simp add: useTodos_def useTodos_init_def useLocalStorage_init_def try_catch_def p t)
qed


section \<open>Facts about the remote resource\<close>

lemmas setters = setData_def setLoading_def setError_def

lemma data_rerender [simp]: "data (rerender url options s) = data s"
  by (simp add: rerender_def effect_def cleanup_def setters Let_def)

lemma error_rerender [simp]: "error (rerender url options s) = error s"
  by (simp add: rerender_def effect_def cleanup_def setters Let_def)

lemma exclusive_settle: "exclusive s \<Longrightarrow> exclusive (settle n r s)"
  by (simp add: exclusive_def settle_def setters Let_def split: sum.splits)

lemma exclusive_step: "exclusive s \<Longrightarrow> exclusive (step s e)"
  by (cases e) (simp_all add: exclusive_settle, simp add: exclusive_def)

lemma exclusive_foldl: "exclusive s \<Longrightarrow> exclusive (foldl step s es)"
  by (induction es arbitrary: s) (simp_all add: exclusive_step)

lemma exclusive_useFetch: "exclusive (useFetch url options)"
  by (simp add: exclusive_def useFetch_def effect_def setters Let_def)


text \<open>
  C6. After the first render and after any sequence of renders and answers of the
  host, \<open>data\<close> and \<open>error\<close> are not both set.
\<close>

theorem data_error_exclusive:
  "\<not> (data (run url options es) \<noteq> None \<and> error (run url options es) \<noteq> None)"
  using exclusive_foldl [OF exclusive_useFetch]
  by (simp add: exclusive_def run_def)


lemma length_requests_settle [simp]: "length (requests (settle n r s)) = length (requests s)"
  by (simp add: settle_def setters Let_def split: sum.splits)

lemma isMounted_settle [simp]:
  "isMounted (requests (settle n r s) ! k) = isMounted (requests s ! k)"
  by (cases "k = n") (simp_all add: settle_def setters Let_def split: sum.splits)

lemma finished_settle_other:
  "k \<noteq> n \<Longrightarrow> finished (requests (settle n r s) ! k) = finished (requests s ! k)"
  by (simp add: settle_def setters Let_def split: sum.splits)

lemma requests_rerender:
  "(url, options) \<noteq> deps s \<Longrightarrow>
   requests (rerender url options s) =
     (requests s)[length (requests s) - 1 :=
        (requests s ! (length (requests s) - 1))\<lparr>isMounted := False\<rparr>] @
     [\<lparr>req_url = url, req_options = options, isMounted = True, finished = False\<rparr>]"
  by (simp add: rerender_def effect_def cleanup_def setters Let_def)

lemma length_requests_step: "length (requests s) \<le> length (requests (step s e))"
  by (cases e) (simp_all add: rerender_def effect_def cleanup_def setters Let_def)

lemma unmounted_step:
  assumes "n < length (requests s)" and "\<not> isMounted (requests s ! n)"
  shows "\<not> isMounted (requests (step s e) ! n)"
proof (cases e)
  case (Rerender url options)
  show ?thesis
  proof (cases "(url, options) = deps s")
    case True
    with Rerender assms show ?thesis by (simp add: rerender_def)
  next
    case False
    with Rerender assms show ?thesis
      by (simp add: requests_rerender nth_append nth_list_update)
  qed
next
  case (Settle k r)
  with assms show ?thesis by simp
qed

lemma unmounted_foldl:
  "n < length (requests s) \<Longrightarrow> \<not> isMounted (requests s ! n) \<Longrightarrow>
   n < length (requests (foldl step s es)) \<and> \<not> isMounted (requests (foldl step s es) ! n)"
proof (induction es arbitrary: s)
  case Nil
  then show ?case by simp
next
  case (Cons e es)
  from Cons.prems have "n < length (requests (step s e))"
    using length_requests_step [of s e] by simp
  moreover from Cons.prems have "\<not> isMounted (requests (step s e) ! n)"
    by (rule unmounted_step)
  ultimately show ?case
    using Cons.IH [of "step s e"] by simp
qed

lemma settle_stale:
  "\<not> isMounted (requests s ! n) \<Longrightarrow> observable (settle n r s) = observable s"
  by (simp add: observable_def settle_def setters Let_def split: sum.splits)

lemma settle_current:
  "n < length (requests s) \<Longrightarrow> isMounted (requests s ! n) \<Longrightarrow> \<not> finished (requests s ! n) \<Longrightarrow>
   observable (settle n r s) = outcome r"
  by (simp add: observable_def outcome_def settle_def setters Let_def split: sum.splits)

lemma requests_useFetch: "requests (useFetch url options) \<noteq> []"
  by (simp add: useFetch_def effect_def setters Let_def)

lemma requests_run: "requests (run url options es) \<noteq> []"
proof -
  have "length (requests s) \<le> length (requests (foldl step s es))" for s :: "'a fetch_hook"
  proof (induction es arbitrary: s)
    case Nil
    show ?case by simp
  next
    case (Cons e es)
    from length_requests_step [of s e] Cons [of "step s e"] show ?case by simp
  qed
  from this [of "useFetch url options"] requests_useFetch [of url options]
  show ?thesis by (auto simp: run_def)
qed


text \<open>
  C2. Take any state the hook can reach; its last request is the first fetch. Let the
  key change, so that the second fetch is issued. Whenever the first request's answer
  arrives afterwards, after any further events, it changes none of \<open>data\<close>,
  \<open>loading\<close> and \<open>error\<close>. And when the two answers arrive one after the other, in
  either order, the state is what the second answer alone leaves.
\<close>

theorem superseded_request_ignored:
  assumes s: "s = run url options es"
    and key: "(url', options') \<noteq> deps s"
    and s': "s' = rerender url' options' s"
    and first: "first = length (requests s) - 1"
  shows "observable (settle first r1 (foldl step s' es')) = observable (foldl step s' es') \<and>
         observable (settle (Suc first) r2 (settle first r1 s')) = outcome r2 \<and>
         observable (settle first r1 (settle (Suc first) r2 s')) = outcome r2"
proof -
  from s have ne: "requests s \<noteq> []"
    by (simp add: requests_run)
  with first have len: "length (requests s) = Suc first"
    by (cases "requests s") simp_all
  from key s' have rs: "requests s' =
      (requests s)[first := (requests s ! first)\<lparr>isMounted := False\<rparr>] @
      [\<lparr>req_url = url', req_options = options', isMounted = True, finished = False\<rparr>]"
    by (simp add: requests_rerender first)
  from rs len have old: "first < length (requests s')" "\<not> isMounted (requests s' ! first)"
    by (simp_all add: nth_append)
  from rs len have new: "Suc first < length (requests s')" "isMounted (requests s' ! Suc first)"
      "\<not> finished (requests s' ! Suc first)"
    by (simp_all add: nth_append)
  from unmounted_foldl [OF old, of es']
  have a: "observable (settle first r1 (foldl step s' es')) = observable (foldl step s' es')"
    by (simp add: settle_stale)
  from new have b: "observable (settle (Suc first) r2 (settle first r1 s')) = outcome r2"
    by (intro settle_current) (simp_all add: finished_settle_other)
  from old have c: "observable (settle first r1 (settle (Suc first) r2 s')) = outcome r2"
    using settle_current [OF new, of r2] by (simp add: settle_stale)
  from a b c show ?thesis by simp
qed

lemmas fetch_eval = run_def useFetch_def effect_def rerender_def cleanup_def settle_def
  setData_def setLoading_def setError_def Let_def fetchData_try_def as_Error_def
  observable_def outcome_def


theorem superseded_request_ignored_witness:
  "(js ''B'', js ''{}'') \<noteq> deps (run (js ''A'') (js ''{}'') ([] :: jsstring event list)) \<and>
   observable
     (settle 0 (Resolves \<lparr>ok = True, status = 200, response_json = Inr (Some (js ''old''))\<rparr>)
        (foldl step (rerender (js ''B'') (js ''{}'') (run (js ''A'') (js ''{}'') []))
           [Settle (Suc 0) (Resolves \<lparr>ok = True, status = 200, response_json = Inr (Some (js ''new''))\<rparr>)]))
     = (Some (js ''new''), False, None) \<and>
   observable
     (settle (Suc 0) (Resolves \<lparr>ok = True, status = 200, response_json = Inr (Some (js ''new''))\<rparr>)
        (settle 0 (Resolves \<lparr>ok = True, status = 200, response_json = Inr (Some (js ''old''))\<rparr>)
           (rerender (js ''B'') (js ''{}'') (run (js ''A'') (js ''{}'') []))))
     = (Some (js ''new''), False, None)"
proof -
  let ?old = "Resolves \<lparr>ok = True, status = 200, response_json = Inr (Some (js ''old''))\<rparr>"
  let ?new = "Resolves \<lparr>ok = True, status = 200, response_json = Inr (Some (js ''new''))\<rparr>"
  let ?s = "run (js ''A'') (js ''{}'') ([] :: jsstring event list)"
  let ?s' = "rerender (js ''B'') (js ''{}'') ?s"
  have key: "(js ''B'', js ''{}'') \<noteq> deps ?s"
    by (simp add: fetch_eval js_def)
  have first: "(0::nat) = length (requests ?s) - 1"
    by (simp add: fetch_eval)
  have later: "observable (foldl step ?s' [Settle (Suc 0) ?new]) = (Some (js ''new''), False, None)"
    by (simp add: fetch_eval js_def)
  have out: "outcome ?new = (Some (js ''new''), False, None)"
    by (simp add: fetch_eval)
  from superseded_request_ignored [OF refl key refl first, of ?old "[Settle (Suc 0) ?new]" ?new]
  have "observable (settle 0 ?old (foldl step ?s' [Settle (Suc 0) ?new]))
        = (Some (js ''new''), False, None) \<and>
      observable (settle (Suc 0) ?new (settle 0 ?old ?s')) = (Some (js ''new''), False, None)"
    by (simp only: later out simp_thms)
  with key show ?thesis
    by (simp only: simp_thms)
qed


lemma rerender_same_key: "(url, options) = deps s \<Longrightarrow> rerender url options s = s"
  by (simp add: rerender_def)

lemma rerender_new_key:
  "(url, options) \<noteq> deps s \<Longrightarrow>
   loading (rerender url options s) \<and> error (rerender url options s) = error s \<and>
   data (rerender url options s) = data s \<and>
   length (requests (rerender url options s)) = Suc (length (requests s)) \<and>
   last (requests (rerender url options s)) =
     \<lparr>req_url = url, req_options = options, isMounted = True, finished = False\<rparr>"
  by (simp add: rerender_def effect_def cleanup_def setters Let_def)


text \<open>
  C5, as stated, fails: the first request fails, then the key changes. At the start of
  the new fetch \<open>loading\<close> is true and one more request has been issued, two in all,
  but \<open>error\<close> still holds the first request's error.
\<close>

theorem useFetch_keeps_error_on_new_key:
  "loading (rerender (js ''B'') (js ''{}'')
      (settle 0 (Rejects (Thrown_Error (js ''Failed to fetch''))) (useFetch (js ''A'') (js ''{}'')))) \<and>
   error (rerender (js ''B'') (js ''{}'')
      (settle 0 (Rejects (Thrown_Error (js ''Failed to fetch''))) (useFetch (js ''A'') (js ''{}''))))
     = Some (Error (js ''Failed to fetch'')) \<and>
   length (requests (rerender (js ''B'') (js ''{}'')
      (settle 0 (Rejects (Thrown_Error (js ''Failed to fetch''))) (useFetch (js ''A'') (js ''{}''))))) = 2"
  by (simp add: fetch_eval js_def)

text \<open>
  C5, amended. On every change of the key, at the start of the new fetch \<open>loading\<close> is
  true, \<open>data\<close> and \<open>error\<close> are what they were before the change, and exactly one
  request has been issued, for the new key; a prior error is cleared when the answer to
  that request is a success. A render with the same key issues no request and changes
  nothing.
\<close>

theorem new_key_starts_fetch:
  "((url, options) \<noteq> deps s \<longrightarrow>
      loading (rerender url options s) \<and>
      data (rerender url options s) = data s \<and>
      error (rerender url options s) = error s \<and>
      length (requests (rerender url options s)) = Suc (length (requests s)) \<and>
      last (requests (rerender url options s)) =
        \<lparr>req_url = url, req_options = options, isMounted = True, finished = False\<rparr> \<and>
      error (settle (length (requests s))
          (Resolves \<lparr>ok = True, status = code, response_json = Inr payload\<rparr>)
          (rerender url options s)) = None) \<and>
   ((url, options) = deps s \<longrightarrow> rerender url options s = s)"
proof (intro conjI impI)
  assume key: "(url, options) \<noteq> deps s"
  let ?s' = "rerender url options s"
  from key show "loading ?s'" and "data ?s' = data s" and "error ?s' = error s"
    and "length (requests ?s') = Suc (length (requests s))"
    and "last (requests ?s') =
        \<lparr>req_url = url, req_options = options, isMounted = True, finished = False\<rparr>"
    by (simp_all add: rerender_new_key)
  from key have new: "length (requests s) < length (requests ?s')"
      "isMounted (requests ?s' ! length (requests s))"
      "\<not> finished (requests ?s' ! length (requests s))"
    by (simp_all add: requests_rerender nth_append)
  have "observable (settle (length (requests s))
      (Resolves \<lparr>ok = True, status = code, response_json = Inr payload\<rparr>) ?s')
      = outcome (Resolves \<lparr>ok = True, status = code, response_json = Inr payload\<rparr>)"
    using new by (rule settle_current)
  then show "error (settle (length (requests s))
      (Resolves \<lparr>ok = True, status = code, response_json = Inr payload\<rparr>) ?s') = None"
    by (simp add: observable_def outcome_def fetchData_try_def)
next
  assume "(url, options) = deps s"
  then show "rerender url options s = s"
    by (rule rerender_same_key)
qed

theorem new_key_starts_fetch_witness:
  "(js ''B'', js ''{}'')
     \<noteq> deps (settle 0 (Rejects (Thrown_Error (js ''Failed to fetch'')))
         (useFetch (js ''A'') (js ''{}'') :: jsstring fetch_hook)) \<and>
   loading (rerender (js ''B'') (js ''{}'')
      (settle 0 (Rejects (Thrown_Error (js ''Failed to fetch'')))
         (useFetch (js ''A'') (js ''{}'') :: jsstring fetch_hook))) \<and>
   error (rerender (js ''B'') (js ''{}'')
      (settle 0 (Rejects (Thrown_Error (js ''Failed to fetch'')))
         (useFetch (js ''A'') (js ''{}'') :: jsstring fetch_hook)))
     = Some (Error (js ''Failed to fetch'')) \<and>
   length (requests (rerender (js ''B'') (js ''{}'')
      (settle 0 (Rejects (Thrown_Error (js ''Failed to fetch'')))
         (useFetch (js ''A'') (js ''{}'') :: jsstring fetch_hook)))) = 2 \<and>
   error (settle 1 (Resolves \<lparr>ok = True, status = 200, response_json = Inr (Some (js ''new''))\<rparr>)
      (rerender (js ''B'') (js ''{}'')
         (settle 0 (Rejects (Thrown_Error (js ''Failed to fetch'')))
            (useFetch (js ''A'') (js ''{}'') :: jsstring fetch_hook)))) = None"
proof -
  let ?failed = "settle 0 (Rejects (Thrown_Error (js ''Failed to fetch'')))
      (useFetch (js ''A'') (js ''{}'') :: jsstring fetch_hook)"
  have key: "(js ''B'', js ''{}'') \<noteq> deps ?failed"
    by (simp add: fetch_eval js_def)
  have err: "error ?failed = Some (Error (js ''Failed to fetch''))"
    by (simp add: fetch_eval)
  have len: "length (requests ?failed) = 1"
    by (simp add: fetch_eval)
  from new_key_starts_fetch [where url = "js ''B''" and options = "js ''{}''" and s = ?failed
      and code = 200 and payload = "Some (js ''new'')"] key
  have "loading (rerender (js ''B'') (js ''{}'') ?failed) \<and>
      error (rerender (js ''B'') (js ''{}'') ?failed) = error ?failed \<and>
      length (requests (rerender (js ''B'') (js ''{}'') ?failed)) = Suc (length (requests ?failed)) \<and>
      error (settle (length (requests ?failed))
          (Resolves \<lparr>ok = True, status = 200, response_json = Inr (Some (js ''new''))\<rparr>)
          (rerender (js ''B'') (js ''{}'') ?failed)) = None"
    by blast
  with key show ?thesis
    by (simp only: err len) simp
qed

end
